theory Spec2Isabelle
  imports Main
begin

section \<open>The dashboard: frontend/src/app/page.tsx\<close>

subsection \<open>Data exchanged with the backend\<close>

text \<open>
  Modelled from the spec: the declaration of \<open>ScanResponse\<close> lives in \<open>@/lib/api\<close>, which is
  not in the repository snapshot. The spec's data model gives the shape of what \<open>POST /scan\<close> returns:
  RiskReport = {region, risk_level: enum{LOW, MEDIUM, CRITICAL}, affected_parts, summary,
  timestamp}. The dashboard reads \<open>risk_level\<close>, \<open>summary\<close> and \<open>timestamp\<close>.
\<close>

datatype RiskLevel = LOW | MEDIUM | CRITICAL

record RiskReport =
  report_region :: string
  risk_level :: RiskLevel
  affected_parts :: "string list"
  summary :: string
  timestamp :: nat

type_synonym ScanResponse = RiskReport

text \<open>
  The response of \<open>api.purchaseParts\<close> is a JSON object; its declaration is in \<open>@/lib/api\<close>
  as well. It is kept as an object with named fields, because the only thing page.tsx fixes
  about it is the name of the field it reads (\<open>res.summary\<close>, handed to a setter of type
  \<open>string | null\<close>). A field the object lacks reads as \<open>undefined\<close>, which is \<open>None\<close> here.
\<close>

type_synonym PurchaseResponse = "string \<rightharpoonup> string"

text \<open>A promise either resolves with a value (\<open>Inr\<close>) or rejects with a message (\<open>Inl\<close>).\<close>

type_synonym 'a settled = "string + 'a"

subsection \<open>Component state and observable effects\<close>

text \<open>The four \<open>useState\<close> cells of \<open>Dashboard\<close> (lines 8-11) and their initial values.\<close>

record Dashboard =
  region :: string
  loading :: bool
  scanResult :: "ScanResponse option"
  orderStatus :: "string option"

definition Dashboard_init :: Dashboard where
  "Dashboard_init =
     \<lparr>region = ''Taiwan'', loading = False, scanResult = None, orderStatus = None\<rparr>"

datatype api_call = scanRegion string | purchaseParts string int

datatype effect = Confirm string | Alert string | Call api_call

subsection \<open>handleScan (lines 13-25)\<close>

text \<open>
  An async handler runs synchronously up to its \<open>await\<close> and resumes when the promise
  settles. \<open>handleScan_call\<close> is the part before the \<open>await\<close>: three setters, then the request
  with the region of the current render. \<open>handleScan_settle\<close> is the rest: the \<open>try\<close> branch
  on a resolved promise, the \<open>catch\<close> branch on a rejected one, and \<open>finally\<close> after either.
\<close>

definition handleScan_call :: "Dashboard \<Rightarrow> Dashboard \<times> api_call" where
  "handleScan_call s =
     (s\<lparr>loading := True, scanResult := None, orderStatus := None\<rparr>, scanRegion (region s))"

definition handleScan_settle :: "Dashboard \<Rightarrow> ScanResponse settled \<Rightarrow> Dashboard \<times> effect list" where
  "handleScan_settle s r =
     (case r of
        Inr data \<Rightarrow> (s\<lparr>scanResult := Some data, loading := False\<rparr>, [])
      | Inl err \<Rightarrow>
          (s\<lparr>loading := False\<rparr>,
           [Alert ''Failed to connect to Sentinell Backend. Please check your .env.local file.'']))"

text \<open>One whole run of the handler, with the promise settling as \<open>r\<close>.\<close>

definition handleScan :: "Dashboard \<Rightarrow> ScanResponse settled \<Rightarrow> Dashboard \<times> effect list" where
  "handleScan s r =
     (let (s1, c) = handleScan_call s;
          (s2, es) = handleScan_settle s1 r
      in (s2, Call c # es))"

subsection \<open>handlePurchase (lines 27-38)\<close>

text \<open>
  \<open>confirm\<close> blocks and returns the user's answer \<open>ok\<close>. On a refusal the handler returns at
  once; otherwise it sets \<open>loading\<close> and sends the request.
\<close>

definition handlePurchase_call :: "Dashboard \<Rightarrow> bool \<Rightarrow> Dashboard \<times> api_call option" where
  "handlePurchase_call s ok =
     (if \<not> ok then (s, None)
      else (s\<lparr>loading := True\<rparr>, Some (purchaseParts ''Logic-Core-CPU'' 50)))"

definition handlePurchase_settle ::
    "Dashboard \<Rightarrow> PurchaseResponse settled \<Rightarrow> Dashboard \<times> effect list" where
  "handlePurchase_settle s r =
     (case r of
        Inr res \<Rightarrow> (s\<lparr>orderStatus := res ''summary'', loading := False\<rparr>, [])
      | Inl err \<Rightarrow> (s\<lparr>loading := False\<rparr>, [Alert ''Purchase failed. Check console for details.'']))"

definition handlePurchase ::
    "Dashboard \<Rightarrow> bool \<Rightarrow> PurchaseResponse settled \<Rightarrow> Dashboard \<times> effect list" where
  "handlePurchase s ok r =
     (case handlePurchase_call s ok of
        (s1, None) \<Rightarrow> (s1, [Confirm ''Confirm purchase of 50 CPUs from backup supplier?''])
      | (s1, Some c) \<Rightarrow>
          (let (s2, es) = handlePurchase_settle s1 r
           in (s2, Confirm ''Confirm purchase of 50 CPUs from backup supplier?'' # Call c # es)))"

text \<open>The calls among a handler's effects, in the order they were made.\<close>

fun calls_of :: "effect list \<Rightarrow> api_call list" where
  "calls_of [] = []"
| "calls_of (Call c # es) = c # calls_of es"
| "calls_of (_ # es) = calls_of es"

subsection \<open>What is rendered (lines 80-87, 99-110 and 134-172)\<close>

text \<open>The \<open>disabled\<close> attributes of the two buttons. A scan result is an object or \<open>null\<close>,
  so \<open>!scanResult\<close> holds exactly when it is \<open>null\<close>.\<close>

definition scan_button_disabled :: "Dashboard \<Rightarrow> bool" where
  "scan_button_disabled s = loading s"

definition purchase_button_disabled :: "Dashboard \<Rightarrow> bool" where
  "purchase_button_disabled s = (loading s \<or> scanResult s = None)"

text \<open>
  The badge of the scan card (lines 139-146): two explicit comparisons and a final
  \<open>else\<close>; the warning icon is rendered for CRITICAL only; the label is the level followed
  by " RISK DETECTED".
\<close>

definition badge_class :: "RiskLevel \<Rightarrow> string" where
  "badge_class lvl =
     (if lvl = CRITICAL then ''bg-red-950/50 border-red-500 text-red-400''
      else if lvl = MEDIUM then ''bg-yellow-950/50 border-yellow-500 text-yellow-400''
      else ''bg-green-950/50 border-green-500 text-green-400'')"

definition badge_icon :: "RiskLevel \<Rightarrow> bool" where
  "badge_icon lvl = (lvl = CRITICAL)"

fun RiskLevel_text :: "RiskLevel \<Rightarrow> string" where
  "RiskLevel_text LOW = ''LOW''"
| "RiskLevel_text MEDIUM = ''MEDIUM''"
| "RiskLevel_text CRITICAL = ''CRITICAL''"

definition badge_label :: "RiskLevel \<Rightarrow> string" where
  "badge_label lvl = RiskLevel_text lvl @ '' RISK DETECTED''"

record ScanCard =
  card_class :: string
  card_icon :: bool
  card_label :: string
  card_time :: nat
  card_body :: string

text \<open>\<open>{scanResult && (...)}\<close>: the card exists only for a non-null scan result. The time
  is kept as the raw timestamp (its formatting depends on the browser's locale).\<close>

definition scan_card :: "Dashboard \<Rightarrow> ScanCard option" where
  "scan_card s =
     (case scanResult s of
        None \<Rightarrow> None
      | Some r \<Rightarrow>
          Some \<lparr>card_class = badge_class (risk_level r), card_icon = badge_icon (risk_level r),
                card_label = badge_label (risk_level r), card_time = timestamp r,
                card_body = summary r\<rparr>)"

text \<open>\<open>{orderStatus && (...)}\<close>: \<open>null\<close> and the empty string are both falsy.\<close>

definition order_card :: "Dashboard \<Rightarrow> string option" where
  "order_card s =
     (case orderStatus s of
        None \<Rightarrow> None
      | Some t \<Rightarrow> if t = [] then None else Some t)"

subsection \<open>The component as a reactive system\<close>

text \<open>
  Between renders the component reacts to events: a click on either button, a choice in the
  region selector, and the settling of a promise that a handler awaits. A disabled button
  fires no \<open>onClick\<close>. \<open>inflight\<close> holds the calls whose promises have not settled; \<open>trace\<close>
  records, in order, every call sent and every scan report received.
\<close>

datatype io = Sent api_call | Got ScanResponse

record UI =
  dash :: Dashboard
  inflight :: "api_call list"
  trace :: "io list"

definition UI_init :: UI where
  "UI_init = \<lparr>dash = Dashboard_init, inflight = [], trace = []\<rparr>"

datatype event =
    ClickScan
  | ClickPurchase bool
  | SelectRegion string
  | ScanSettled "ScanResponse settled"
  | PurchaseSettled "PurchaseResponse settled"

fun is_scanRegion :: "api_call \<Rightarrow> bool" where
  "is_scanRegion (scanRegion _) = True"
| "is_scanRegion (purchaseParts _ _) = False"

fun is_purchaseParts :: "api_call \<Rightarrow> bool" where
  "is_purchaseParts (purchaseParts _ _) = True"
| "is_purchaseParts (scanRegion _) = False"

text \<open>Removes the oldest pending call of the given kind; \<open>None\<close> when there is none.\<close>

fun settle_first :: "(api_call \<Rightarrow> bool) \<Rightarrow> api_call list \<Rightarrow> api_call list option" where
  "settle_first P [] = None"
| "settle_first P (c # cs) =
     (if P c then Some cs else map_option ((#) c) (settle_first P cs))"

fun got_of :: "ScanResponse settled \<Rightarrow> io list" where
  "got_of (Inr data) = [Got data]"
| "got_of (Inl err) = []"

definition step :: "UI \<Rightarrow> event \<Rightarrow> UI" where
  "step u e =
     (case e of
        SelectRegion r \<Rightarrow> u\<lparr>dash := (dash u)\<lparr>region := r\<rparr>\<rparr>
      | ClickScan \<Rightarrow>
          if scan_button_disabled (dash u) then u
          else (let (s', c) = handleScan_call (dash u)
                in u\<lparr>dash := s', inflight := inflight u @ [c], trace := trace u @ [Sent c]\<rparr>)
      | ClickPurchase ok \<Rightarrow>
          if purchase_button_disabled (dash u) then u
          else (case handlePurchase_call (dash u) ok of
                  (s', None) \<Rightarrow> u\<lparr>dash := s'\<rparr>
                | (s', Some c) \<Rightarrow>
                    u\<lparr>dash := s', inflight := inflight u @ [c], trace := trace u @ [Sent c]\<rparr>)
      | ScanSettled r \<Rightarrow>
          (case settle_first is_scanRegion (inflight u) of
             None \<Rightarrow> u
           | Some rest \<Rightarrow>
               u\<lparr>dash := fst (handleScan_settle (dash u) r), inflight := rest,
                 trace := trace u @ got_of r\<rparr>)
      | PurchaseSettled r \<Rightarrow>
          (case settle_first is_purchaseParts (inflight u) of
             None \<Rightarrow> u
           | Some rest \<Rightarrow> u\<lparr>dash := fst (handlePurchase_settle (dash u) r), inflight := rest\<rparr>))"

definition run :: "UI \<Rightarrow> event list \<Rightarrow> UI" where
  "run u es = foldl step u es"

subsection \<open>The purchase response against the spec's data model\<close>

text \<open>
  Modelled from the spec: the field names of the two records that, by the spec,
  \<open>POST /purchase\<close> answers with. Order = {order_id, supplier_id, part_id, quantity,
  total_cost, status}; ApprovalRequest = {order_draft, reason, requested_at, resolution}.
\<close>

definition Order_fields :: "string list" where
  "Order_fields =
     [''order_id'', ''supplier_id'', ''part_id'', ''quantity'', ''total_cost'', ''status'']"

definition ApprovalRequest_fields :: "string list" where
  "ApprovalRequest_fields = [''order_draft'', ''reason'', ''requested_at'', ''resolution'']"

text \<open>The fields of the response that handlePurchase reads: \<open>res.summary\<close> on line 32,
  and no other.\<close>

definition handlePurchase_reads :: "string list" where
  "handlePurchase_reads = [''summary'']"

subsection \<open>Reachable states\<close>

text \<open>
  What holds in every state the component can reach: at most one promise is pending, and
  \<open>loading\<close> is set exactly while one is; a scan result on display was received; every
  purchase call in the trace comes after a received report; while a scan is pending, no
  scan result and no order status are held.
\<close>

definition UI_inv :: "UI \<Rightarrow> bool" where
  "UI_inv u =
     (length (inflight u) \<le> 1 \<and>
      (loading (dash u) = (inflight u \<noteq> [])) \<and>
      (scanResult (dash u) \<noteq> None \<longrightarrow> (\<exists>d. Got d \<in> set (trace u))) \<and>
      (\<forall>xs p q ys. trace u = xs @ Sent (purchaseParts p q) # ys \<longrightarrow> (\<exists>d. Got d \<in> set xs)) \<and>
      ((\<exists>g. scanRegion g \<in> set (inflight u)) \<longrightarrow>
         scanResult (dash u) = None \<and> orderStatus (dash u) = None))"

text \<open>A report used in the concrete runs below.\<close>

definition report0 :: RiskReport where
  "report0 =
     \<lparr>report_region = ''Taiwan'', risk_level = CRITICAL, affected_parts = [''Logic-Core-CPU''],
      summary = ''Port strike'', timestamp = 1700000000\<rparr>"

section \<open>The backend the dashboard calls\<close>

text \<open>
  The backend (supervisor, procurement workflow, approvals) is described by the spec and by
  the README, but none of its code is in the repository snapshot. Its definitions below follow the
  spec's sections 3, 4.3 and 4.5 and the properties of section 8.
\<close>

subsection \<open>Supervisor: merging the findings of a scan\<close>

text \<open>
  Modelled from the spec: InvestigationFinding of section 3 and the outcome of one
  dimension's investigation (section 4.3: it completes with a finding or times out); the
  backend's declarations are absent. Severity orders the levels LOW, MEDIUM, CRITICAL.
\<close>

datatype Dimension = POLITICAL | WEATHER

record InvestigationFinding =
  dimension :: Dimension
  finding_level :: RiskLevel
  evidence_digest :: string
  iterations_used :: nat

datatype outcome = Completed InvestigationFinding | TimedOut Dimension

datatype scan_error = SCAN_INCONCLUSIVE

fun severity :: "RiskLevel \<Rightarrow> nat" where
  "severity LOW = 0"
| "severity MEDIUM = 1"
| "severity CRITICAL = 2"

definition max_level :: "RiskLevel \<Rightarrow> RiskLevel \<Rightarrow> RiskLevel" where
  "max_level a b = (if severity a < severity b then b else a)"

fun completed :: "outcome list \<Rightarrow> InvestigationFinding list" where
  "completed [] = []"
| "completed (Completed f # os) = f # completed os"
| "completed (TimedOut d # os) = completed os"

fun Dimension_text :: "Dimension \<Rightarrow> string" where
  "Dimension_text POLITICAL = ''POLITICAL''"
| "Dimension_text WEATHER = ''WEATHER''"

fun narrative :: "outcome list \<Rightarrow> string" where
  "narrative [] = []"
| "narrative (Completed f # os) = evidence_digest f @ ''; '' @ narrative os"
| "narrative (TimedOut d # os) =
     ''caveat: '' @ Dimension_text d @ '' timed out; '' @ narrative os"

text \<open>
  Modelled from the spec: the Supervisor's \<open>scan(region)\<close> of section 4.3, whose code is
  absent. "Merge rule: aggregate risk_level = max severity among findings that completed
  (timed-out dimensions are excluded from the max but recorded as caveats in the summary)";
  "if all dimensions time out, the scan fails with SCAN_INCONCLUSIVE". The investigations
  themselves are external: their outcomes, the affected parts and the clock are inputs.
\<close>

definition scan :: "string \<Rightarrow> nat \<Rightarrow> string list \<Rightarrow> outcome list \<Rightarrow> scan_error + RiskReport" where
  "scan rgn now parts os =
     (case completed os of
        [] \<Rightarrow> Inl SCAN_INCONCLUSIVE
      | f # fs \<Rightarrow>
          Inr \<lparr>report_region = rgn,
               risk_level = foldl max_level (finding_level f) (map finding_level fs),
               affected_parts = parts, summary = narrative os, timestamp = now\<rparr>)"

subsection \<open>Procurement workflow and its approval gate\<close>

text \<open>
  Modelled from the spec: the records of section 3 and the states of the Procurement Agent
  of section 4.5, whose code is absent. States: CHECK_MEMORY, REQUEST_QUOTE, EVALUATE, AUTO_APPROVE or
  AWAIT_APPROVAL, PLACE_ORDER, UPDATE_MEMORY, DONE, and the absorbing FAILED. Amounts are in
  minor units of the canonical currency. The status FAILED of an Order is written
  \<open>ORDER_FAILED\<close>, to keep it apart from the workflow state FAILED.
\<close>

datatype OrderStatus = PLACED | CONFIRMED | ORDER_FAILED

datatype Resolution = PENDING | APPROVED | REJECTED

datatype WorkflowState =
    CHECK_MEMORY | REQUEST_QUOTE | EVALUATE | AUTO_APPROVE | AWAIT_APPROVAL
  | PLACE_ORDER | UPDATE_MEMORY | DONE | FAILED

datatype ErrorCode =
    NO_VIABLE_SUPPLIER | APPROVAL_DENIED | ALREADY_RESOLVED | ORDER_NOT_FULFILLED
  | NOT_APPLICABLE

record Quote =
  quote_supplier_id :: string
  quote_part_id :: string
  quote_quantity :: nat
  unit_price :: nat
  currency :: string
  lead_time_days :: nat
  expires_at :: nat

record Order =
  order_id :: nat
  supplier_id :: string
  part_id :: string
  quantity :: nat
  total_cost :: nat
  status :: OrderStatus

record OrderDraft =
  draft_quote :: Quote
  draft_total_cost :: nat

record ApprovalRequest =
  order_draft :: OrderDraft
  reason :: string
  requested_at :: nat
  resolution :: Resolution

record Workflow =
  wf_state :: WorkflowState
  candidates :: "string list"
  quote :: "Quote option"
  approval :: "ApprovalRequest option"
  order :: "Order option"
  failure_reason :: "ErrorCode option"

text \<open>Modelled from the spec: the configured approval threshold, and CURRENCY_CONVERT of the
  Tool Access Layer (an amount in a given currency to the canonical one); section 4.4 has
  every threshold comparison made in the canonical currency.\<close>

record Config =
  approval_threshold :: nat
  currency_convert :: "string \<Rightarrow> nat \<Rightarrow> nat"

definition Workflow_init :: Workflow where
  "Workflow_init =
     \<lparr>wf_state = CHECK_MEMORY, candidates = [], quote = None, approval = None, order = None,
      failure_reason = None\<rparr>"

definition canonical_total :: "Config \<Rightarrow> Quote \<Rightarrow> nat" where
  "canonical_total cfg q = currency_convert cfg (currency q) (unit_price q * quote_quantity q)"

definition fail_with :: "ErrorCode \<Rightarrow> Workflow \<Rightarrow> Workflow" where
  "fail_with e w = w\<lparr>wf_state := FAILED, failure_reason := Some e\<rparr>"

text \<open>
  Modelled from the spec: what drives a workflow instance of section 4.5: the ranked, eligible candidates read from the Memory
  Bank; a supplier's answer to requestQuote; the evaluation step, stamped with the clock;
  the step out of AUTO_APPROVE; an external actor's resolution of the approval request; a
  supplier's report on the order; the completed Memory Bank write.
\<close>

datatype QuoteResult = Quoted Quote | NO_STOCK | PRICE_CHANGED

datatype Decision = Approve | Reject

datatype Event =
    MemoryRead "string list"
  | QuoteReply QuoteResult
  | Evaluate nat
  | Proceed
  | Resolve Decision
  | OrderReport nat OrderStatus
  | MemoryWritten

text \<open>
  Modelled from the spec: the EVALUATE step of section 4.5, whose code is absent. "Below
  threshold: AUTO_APPROVE (no suspension). At or above threshold: AWAIT_APPROVAL: create an
  ApprovalRequest and suspend the workflow". (Section 3 and the README word the condition as
  the cost exceeding the threshold; sections 4.5 and 8 are followed here, so a cost equal to
  the threshold waits for approval.)
\<close>

definition evaluate :: "Config \<Rightarrow> nat \<Rightarrow> Workflow \<Rightarrow> ErrorCode option \<times> Workflow" where
  "evaluate cfg now w =
     (case quote w of
        None \<Rightarrow> (Some NOT_APPLICABLE, w)
      | Some q \<Rightarrow>
          if wf_state w \<noteq> EVALUATE then (Some NOT_APPLICABLE, w)
          else if canonical_total cfg q < approval_threshold cfg
          then (None, w\<lparr>wf_state := AUTO_APPROVE\<rparr>)
          else (None,
                w\<lparr>wf_state := AWAIT_APPROVAL,
                  approval :=
                    Some \<lparr>order_draft = \<lparr>draft_quote = q, draft_total_cost = canonical_total cfg q\<rparr>,
                          reason = ''total cost at or above the approval threshold'',
                          requested_at = now, resolution = PENDING\<rparr>\<rparr>))"

text \<open>
  Modelled from the spec: \<open>POST /approvals/{id}/resolve {decision}\<close> of sections 4.5, 6
  and 8, whose code is absent. "Resolution APPROVED resumes to PLACE_ORDER;
  REJECTED transitions to FAILED with reason APPROVAL_DENIED"; "second call fails with an
  explicit ALREADY_RESOLVED, state unchanged". The result is the error, if any, and the
  workflow as it is after the call. The spec names no error for a workflow that has no
  approval request; \<open>NOT_APPLICABLE\<close> stands for it, and for any event that does not fit the
  current state.
\<close>

definition resolve :: "Decision \<Rightarrow> Workflow \<Rightarrow> ErrorCode option \<times> Workflow" where
  "resolve d w =
     (case approval w of
        None \<Rightarrow> (Some NOT_APPLICABLE, w)
      | Some a \<Rightarrow>
          if resolution a \<noteq> PENDING then (Some ALREADY_RESOLVED, w)
          else (case d of
                  Approve \<Rightarrow>
                    (None, w\<lparr>wf_state := PLACE_ORDER, approval := Some (a\<lparr>resolution := APPROVED\<rparr>)\<rparr>)
                | Reject \<Rightarrow>
                    (Some APPROVAL_DENIED,
                     fail_with APPROVAL_DENIED (w\<lparr>approval := Some (a\<lparr>resolution := REJECTED\<rparr>)\<rparr>))))"

text \<open>Modelled from the spec: the PLACE_ORDER step of section 4.5, whose code is absent.
  placeOrder on the accepted quote; PLACED is not terminal, CONFIRMED and FAILED are, and
  both lead to UPDATE_MEMORY.\<close>

definition order_report :: "Config \<Rightarrow> nat \<Rightarrow> OrderStatus \<Rightarrow> Workflow \<Rightarrow> ErrorCode option \<times> Workflow" where
  "order_report cfg oid st w =
     (case quote w of
        None \<Rightarrow> (Some NOT_APPLICABLE, w)
      | Some q \<Rightarrow>
          if wf_state w \<noteq> PLACE_ORDER then (Some NOT_APPLICABLE, w)
          else (None,
                w\<lparr>order :=
                    Some \<lparr>order_id = oid, supplier_id = quote_supplier_id q,
                          part_id = quote_part_id q, quantity = quote_quantity q,
                          total_cost = canonical_total cfg q, status = st\<rparr>,
                  wf_state := (if st = PLACED then PLACE_ORDER else UPDATE_MEMORY)\<rparr>))"

text \<open>Modelled from the spec: one transition of the workflow of section 4.5, whose code is
  absent. CHECK_MEMORY hands the ranked candidates to REQUEST_QUOTE; NO_STOCK or
  PRICE_CHANGED falls through to the next candidate, and to FAILED with NO_VIABLE_SUPPLIER
  when none is left; UPDATE_MEMORY ends in DONE or FAILED per the order's outcome.\<close>

definition workflow_step :: "Config \<Rightarrow> Workflow \<Rightarrow> Event \<Rightarrow> ErrorCode option \<times> Workflow" where
  "workflow_step cfg w e =
     (case e of
        MemoryRead cs \<Rightarrow>
          if wf_state w \<noteq> CHECK_MEMORY then (Some NOT_APPLICABLE, w)
          else if cs = [] then (Some NO_VIABLE_SUPPLIER, fail_with NO_VIABLE_SUPPLIER w)
          else (None, w\<lparr>wf_state := REQUEST_QUOTE, candidates := cs\<rparr>)
      | QuoteReply qr \<Rightarrow>
          if wf_state w \<noteq> REQUEST_QUOTE then (Some NOT_APPLICABLE, w)
          else (case qr of
                  Quoted q \<Rightarrow> (None, w\<lparr>wf_state := EVALUATE, quote := Some q\<rparr>)
                | _ \<Rightarrow>
                    if tl (candidates w) = []
                    then (Some NO_VIABLE_SUPPLIER,
                          fail_with NO_VIABLE_SUPPLIER (w\<lparr>candidates := []\<rparr>))
                    else (None, w\<lparr>candidates := tl (candidates w)\<rparr>))
      | Evaluate now \<Rightarrow> evaluate cfg now w
      | Proceed \<Rightarrow>
          if wf_state w \<noteq> AUTO_APPROVE then (Some NOT_APPLICABLE, w)
          else (None, w\<lparr>wf_state := PLACE_ORDER\<rparr>)
      | Resolve d \<Rightarrow> resolve d w
      | OrderReport oid st \<Rightarrow> order_report cfg oid st w
      | MemoryWritten \<Rightarrow>
          if wf_state w \<noteq> UPDATE_MEMORY then (Some NOT_APPLICABLE, w)
          else (case order w of
                  None \<Rightarrow> (Some NOT_APPLICABLE, w)
                | Some ord \<Rightarrow>
                    if status ord = CONFIRMED then (None, w\<lparr>wf_state := DONE\<rparr>)
                    else (Some ORDER_NOT_FULFILLED, fail_with ORDER_NOT_FULFILLED w)))"

text \<open>Modelled from the spec: a workflow instance persists (section 5); an event that is
  refused leaves it as it is for the next one.\<close>

definition workflow_run :: "Config \<Rightarrow> Workflow \<Rightarrow> Event list \<Rightarrow> Workflow" where
  "workflow_run cfg w es = foldl (\<lambda>w e. snd (workflow_step cfg w e)) w es"

text \<open>The approval request is outstanding; the order has been confirmed; the approval
  request has been resolved.\<close>

definition is_pending :: "Workflow \<Rightarrow> bool" where
  "is_pending w = (case approval w of None \<Rightarrow> False | Some a \<Rightarrow> resolution a = PENDING)"

definition is_confirmed :: "Workflow \<Rightarrow> bool" where
  "is_confirmed w = (case order w of None \<Rightarrow> False | Some ord \<Rightarrow> status ord = CONFIRMED)"

definition is_resolved :: "Workflow \<Rightarrow> bool" where
  "is_resolved w = (case approval w of None \<Rightarrow> False | Some a \<Rightarrow> resolution a \<noteq> PENDING)"

text \<open>
  What holds of every workflow started in CHECK_MEMORY: up to the evaluation there is
  neither an approval request nor an order; while the workflow waits, the request is pending
  and there is no order; in every later state the request, if any, is resolved.
\<close>

definition gate_inv :: "Workflow \<Rightarrow> bool" where
  "gate_inv w =
     (case wf_state w of
        AWAIT_APPROVAL \<Rightarrow> is_pending w \<and> order w = None
      | PLACE_ORDER \<Rightarrow> \<not> is_pending w
      | UPDATE_MEMORY \<Rightarrow> \<not> is_pending w
      | DONE \<Rightarrow> \<not> is_pending w
      | FAILED \<Rightarrow> \<not> is_pending w
      | _ \<Rightarrow> approval w = None \<and> order w = None)"

text \<open>Once the request is resolved, the workflow is in one of the states after the gate.\<close>

definition past_gate :: "Workflow \<Rightarrow> bool" where
  "past_gate w = (is_resolved w \<and> wf_state w \<in> {PLACE_ORDER, UPDATE_MEMORY, DONE, FAILED})"

text \<open>
  Values for the concrete runs below: a scan in which the weather dimension timed out; a
  threshold of 5000.00 with amounts already canonical; a quote of 50 parts at 120.00.
\<close>

definition outcomes0 :: "outcome list" where
  "outcomes0 =
     [TimedOut WEATHER,
      Completed \<lparr>dimension = POLITICAL, finding_level = MEDIUM,
                 evidence_digest = ''port strike announced'', iterations_used = 2\<rparr>]"

definition config0 :: Config where
  "config0 = \<lparr>approval_threshold = 500000, currency_convert = (\<lambda>c a. a)\<rparr>"

definition quote0 :: Quote where
  "quote0 =
     \<lparr>quote_supplier_id = ''S1'', quote_part_id = ''Logic-Core-CPU'', quote_quantity = 50,
      unit_price = 12000, currency = ''USD'', lead_time_days = 7, expires_at = 1700003600\<rparr>"

definition waiting0 :: Workflow where
  "waiting0 =
     workflow_run config0 Workflow_init
       ([MemoryRead [''S1''], QuoteReply (Quoted quote0)] @ [Evaluate 1700000000])"

section \<open>Properties of the handlers\<close>

text \<open>
  C2. Whenever handlePurchase sends a request, it is \<open>purchaseParts\<close> with part_id exactly
  "Logic-Core-CPU" and quantity exactly 50: over every state, every answer to the dialog and
  every way the promise settles, the calls of a run are none (the user declined) or exactly
  that one.
\<close>

theorem handlePurchase_sends_fixed_order:
  "calls_of (snd (handlePurchase s ok r)) =
     (if ok then [purchaseParts ''Logic-Core-CPU'' 50] else [])"
  by (simp add: handlePurchase_def handlePurchase_call_def handlePurchase_settle_def
      split: sum.split)

text \<open>
  C6. One run of the scan action. If the request fails, no report is held or displayed,
  the user gets the alert, and \<open>loading\<close> is reset. If it succeeds, the state holds the
  returned report itself, \<open>loading\<close> is reset, no alert is raised, and the card shows the
  level, the timestamp and the summary of that report.
\<close>

theorem handleScan_outcome:
  "handleScan s (Inl err) =
     (s\<lparr>loading := False, scanResult := None, orderStatus := None\<rparr>,
      [Call (scanRegion (region s)),
       Alert ''Failed to connect to Sentinell Backend. Please check your .env.local file.'']) \<and>
   scan_card (fst (handleScan s (Inl err))) = None \<and>
   handleScan s (Inr data) =
     (s\<lparr>loading := False, scanResult := Some data, orderStatus := None\<rparr>,
      [Call (scanRegion (region s))]) \<and>
   scan_card (fst (handleScan s (Inr data))) =
     Some \<lparr>card_class = badge_class (risk_level data), card_icon = badge_icon (risk_level data),
           card_label = badge_label (risk_level data), card_time = timestamp data,
           card_body = summary data\<rparr>"
  by (simp add: handleScan_def handleScan_call_def handleScan_settle_def scan_card_def)

text \<open>
  C9. The purchase request is sent only after the user confirms: the first effect of every
  run is the dialog, a call is made exactly when the answer is yes, and on a refusal the run
  ends with every state cell as it was and no call.
\<close>

theorem handlePurchase_declined:
  "handlePurchase s False r = (s, [Confirm ''Confirm purchase of 50 CPUs from backup supplier?'']) \<and>
   (calls_of (snd (handlePurchase s ok r)) \<noteq> []) = ok \<and>
   snd (handlePurchase s True r) =
     Confirm ''Confirm purchase of 50 CPUs from backup supplier?'' #
     Call (purchaseParts ''Logic-Core-CPU'' 50) #
     snd (handlePurchase_settle (s\<lparr>loading := True\<rparr>) r)"
  by (simp add: handlePurchase_def handlePurchase_call_def split: prod.split)

section \<open>Invariants of the reactive system\<close>

text \<open>
  Every event is handled to completion before the next one is taken (JavaScript runs one
  task at a time, and React re-renders before the next click is dispatched), so \<open>step\<close> is
  atomic.
\<close>

lemma UI_inv_init: "UI_inv UI_init"
  by (simp add: UI_inv_def UI_init_def Dashboard_init_def)

lemma short_cases:
  assumes "length (cs :: 'a list) \<le> 1"
  obtains "cs = []" | c where "cs = [c]"
  using assms by (cases cs) auto

lemma snoc_split:
  assumes "t @ [x] = xs @ y # ys"
  shows "(ys = [] \<and> x = y \<and> xs = t) \<or> (\<exists>ys'. ys = ys' @ [x] \<and> t = xs @ y # ys')"
  using assms by (cases ys rule: rev_cases) auto

lemma UI_inv_select: "UI_inv u \<Longrightarrow> UI_inv (step u (SelectRegion r))"
  by (simp add: UI_inv_def step_def)

lemma UI_inv_scan:
  assumes "UI_inv u" shows "UI_inv (step u ClickScan)"
proof (cases "loading (dash u)")
  case True
  then show ?thesis using assms by (simp add: step_def scan_button_disabled_def)
next
  case False
  with assms have e: "inflight u = []" by (simp add: UI_inv_def)
  have t: "\<forall>xs p q ys. trace u = xs @ Sent (purchaseParts p q) # ys \<longrightarrow> (\<exists>d. Got d \<in> set xs)"
    using assms by (simp add: UI_inv_def)
  have "\<forall>xs p q ys. trace u @ [Sent (scanRegion (region (dash u)))] = xs @ Sent (purchaseParts p q) # ys
          \<longrightarrow> (\<exists>d. Got d \<in> set xs)"
  proof (intro allI impI)
    fix xs p q ys
    assume "trace u @ [Sent (scanRegion (region (dash u)))] = xs @ Sent (purchaseParts p q) # ys"
    from snoc_split[OF this] t show "\<exists>d. Got d \<in> set xs" by auto
  qed
  then show ?thesis using False e
    by (simp add: UI_inv_def step_def scan_button_disabled_def handleScan_call_def)
qed

lemma UI_inv_purchase:
  assumes "UI_inv u" shows "UI_inv (step u (ClickPurchase ok))"
proof (cases "purchase_button_disabled (dash u) \<or> \<not> ok")
  case True
  then show ?thesis using assms
    by (auto simp add: step_def handlePurchase_call_def)
next
  case False
  then have l: "\<not> loading (dash u)" and sr: "scanResult (dash u) \<noteq> None" and ok: ok
    by (auto simp: purchase_button_disabled_def)
  with assms have e: "inflight u = []" by (simp add: UI_inv_def)
  from assms sr obtain d where d: "Got d \<in> set (trace u)" by (auto simp: UI_inv_def)
  have t: "\<forall>xs p q ys. trace u = xs @ Sent (purchaseParts p q) # ys \<longrightarrow> (\<exists>d. Got d \<in> set xs)"
    using assms by (simp add: UI_inv_def)
  have "\<forall>xs p q ys. trace u @ [Sent (purchaseParts ''Logic-Core-CPU'' 50)] = xs @ Sent (purchaseParts p q) # ys
          \<longrightarrow> (\<exists>d. Got d \<in> set xs)"
  proof (intro allI impI)
    fix xs p q ys
    assume "trace u @ [Sent (purchaseParts ''Logic-Core-CPU'' 50)] = xs @ Sent (purchaseParts p q) # ys"
    from snoc_split[OF this] t d show "\<exists>d. Got d \<in> set xs" by auto
  qed
  then show ?thesis using l sr ok e d
    by (auto simp add: UI_inv_def step_def purchase_button_disabled_def handlePurchase_call_def)
qed

lemma UI_inv_scan_settled:
  assumes "UI_inv u" shows "UI_inv (step u (ScanSettled r))"
proof -
  from assms have "length (inflight u) \<le> 1" by (simp add: UI_inv_def)
  then show ?thesis
  proof (cases rule: short_cases)
    case 1
    then show ?thesis using assms by (simp add: step_def)
  next
    case (2 c)
    have t: "\<forall>xs p q ys. trace u = xs @ Sent (purchaseParts p q) # ys \<longrightarrow> (\<exists>d. Got d \<in> set xs)"
      using assms by (simp add: UI_inv_def)
    show ?thesis
    proof (cases c)
      case (purchaseParts p q)
      then show ?thesis using assms 2 by (simp add: step_def)
    next
      case (scanRegion g)
      show ?thesis
      proof (cases r)
        case (Inl err)
        then show ?thesis using assms 2 scanRegion
          by (simp add: UI_inv_def step_def handleScan_settle_def)
      next
        case (Inr data)
        have "\<forall>xs p q ys. trace u @ [Got data] = xs @ Sent (purchaseParts p q) # ys
          \<longrightarrow> (\<exists>d. Got d \<in> set xs)"
        proof (intro allI impI)
          fix xs p q ys
          assume "trace u @ [Got data] = xs @ Sent (purchaseParts p q) # ys"
          from snoc_split[OF this] t show "\<exists>d. Got d \<in> set xs" by auto
        qed
        then show ?thesis using assms 2 scanRegion Inr
          by (auto simp add: UI_inv_def step_def handleScan_settle_def)
      qed
    qed
  qed
qed

lemma UI_inv_purchase_settled:
  assumes "UI_inv u" shows "UI_inv (step u (PurchaseSettled r))"
proof -
  from assms have "length (inflight u) \<le> 1" by (simp add: UI_inv_def)
  then show ?thesis
  proof (cases rule: short_cases)
    case 1
    then show ?thesis using assms by (simp add: step_def)
  next
    case (2 c)
    show ?thesis
    proof (cases c)
      case (scanRegion g)
      then show ?thesis using assms 2 by (simp add: step_def)
    next
      case (purchaseParts p q)
      then show ?thesis using assms 2
        by (cases r) (auto simp add: UI_inv_def step_def handlePurchase_settle_def)
    qed
  qed
qed

lemma UI_inv_step: "UI_inv u \<Longrightarrow> UI_inv (step u e)"
  by (cases e) (simp_all add: UI_inv_select UI_inv_scan UI_inv_purchase UI_inv_scan_settled UI_inv_purchase_settled)

lemma UI_inv_run: "UI_inv u \<Longrightarrow> UI_inv (run u es)"
  unfolding run_def by (induction es arbitrary: u) (simp_all add: UI_inv_step)

lemma run_Nil: "run u [] = u"
  by (simp add: run_def)

lemma run_Cons: "run u (e # es) = run (step u e) es"
  by (simp add: run_def)

lemmas ui_eval = run_Nil run_Cons step_def UI_init_def Dashboard_init_def scan_button_disabled_def
  purchase_button_disabled_def handleScan_call_def handleScan_settle_def handlePurchase_call_def
  handlePurchase_settle_def scan_card_def order_card_def

text \<open>
  C8. The Replenish Inventory button is disabled whenever \<open>loading\<close> is set or there is no
  scan result, and a click on it then changes nothing. Consequently, in every state reachable
  from the initial one, at most one request is in flight, and every purchase call in the
  trace is preceded by a scan report that was received.
\<close>

theorem purchase_button_guard:
  "(purchase_button_disabled (dash u) = (loading (dash u) \<or> scanResult (dash u) = None)) \<and>
   (purchase_button_disabled (dash u) \<longrightarrow> step u (ClickPurchase ok) = u) \<and>
   length (inflight (run UI_init es)) \<le> 1 \<and>
   (\<forall>xs p q ys. trace (run UI_init es) = xs @ Sent (purchaseParts p q) # ys \<longrightarrow>
      (\<exists>d. Got d \<in> set xs))"
proof -
  have "UI_inv (run UI_init es)" by (rule UI_inv_run[OF UI_inv_init])
  then show ?thesis
    by (simp add: UI_inv_def purchase_button_disabled_def step_def)
qed

theorem purchase_button_guard_witness:
  "purchase_button_disabled (dash UI_init) \<and>
   step UI_init (ClickPurchase True) = UI_init \<and>
   trace (run UI_init [ClickScan, ScanSettled (Inr report0), ClickPurchase True]) =
     [Sent (scanRegion ''Taiwan''), Got report0] @ Sent (purchaseParts ''Logic-Core-CPU'' 50) # [] \<and>
   (\<exists>d. Got d \<in> set [Sent (scanRegion ''Taiwan''), Got report0])"
  using purchase_button_guard [of UI_init True "[ClickScan, ScanSettled (Inr report0), ClickPurchase True]"]
  by (simp add: ui_eval)

text \<open>
  C10, as stated, at the initial state: the part of handleScan before the request does not
  leave every cell other than \<open>scanResult\<close> and \<open>orderStatus\<close> alone, since it sets
  \<open>loading\<close>.
\<close>

theorem handleScan_call_keeps_loading_counterexample:
  "\<not> (let s' = fst (handleScan_call Dashboard_init) in
        scanResult s' = None \<and> orderStatus s' = None \<and>
        region s' = region Dashboard_init \<and> loading s' = loading Dashboard_init)"
  by (simp add: handleScan_call_def Dashboard_init_def)

text \<open>
  C10, amended. Before the request is sent, handleScan sets \<open>loading\<close> to true and both
  \<open>scanResult\<close> and \<open>orderStatus\<close> to null; \<open>region\<close> is untouched and is the argument of
  the request. In every reachable state with a scan in flight, neither a scan card nor an
  order message is displayed.
\<close>

theorem handleScan_call_clears:
  "(let (s', c) = handleScan_call s in
      scanResult s' = None \<and> orderStatus s' = None \<and> scan_card s' = None \<and> order_card s' = None \<and>
      loading s' = True \<and> region s' = region s \<and> c = scanRegion (region s)) \<and>
   ((\<exists>g. scanRegion g \<in> set (inflight (run UI_init es))) \<longrightarrow>
      scan_card (dash (run UI_init es)) = None \<and> order_card (dash (run UI_init es)) = None)"
proof -
  have "UI_inv (run UI_init es)" by (rule UI_inv_run[OF UI_inv_init])
  then have "(\<exists>g. scanRegion g \<in> set (inflight (run UI_init es))) \<longrightarrow>
      scan_card (dash (run UI_init es)) = None \<and> order_card (dash (run UI_init es)) = None"
    by (auto simp: UI_inv_def scan_card_def order_card_def)
  then show ?thesis
    by (simp add: handleScan_call_def scan_card_def order_card_def)
qed

theorem handleScan_call_clears_witness:
  "(\<exists>g. scanRegion g \<in> set (inflight (run UI_init
      [ClickScan, ScanSettled (Inr report0), ClickPurchase True,
       PurchaseSettled (Inr [''summary'' \<mapsto> ''Order placed'']), ClickScan]))) \<and>
   scanResult (dash (run UI_init [ClickScan, ScanSettled (Inr report0), ClickPurchase True,
       PurchaseSettled (Inr [''summary'' \<mapsto> ''Order placed''])])) = Some report0 \<and>
   orderStatus (dash (run UI_init [ClickScan, ScanSettled (Inr report0), ClickPurchase True,
       PurchaseSettled (Inr [''summary'' \<mapsto> ''Order placed''])])) = Some ''Order placed'' \<and>
   scan_card (dash (run UI_init
      [ClickScan, ScanSettled (Inr report0), ClickPurchase True,
       PurchaseSettled (Inr [''summary'' \<mapsto> ''Order placed'']), ClickScan])) = None \<and>
   order_card (dash (run UI_init
      [ClickScan, ScanSettled (Inr report0), ClickPurchase True,
       PurchaseSettled (Inr [''summary'' \<mapsto> ''Order placed'']), ClickScan])) = None"
  using handleScan_call_clears [of Dashboard_init
      "[ClickScan, ScanSettled (Inr report0), ClickPurchase True,
       PurchaseSettled (Inr [''summary'' \<mapsto> ''Order placed'']), ClickScan]"]
  by (simp add: ui_eval)

section \<open>The purchase response and the scan card\<close>

text \<open>
  C1, as stated: every field of the purchase response that handlePurchase reads would be a
  field of Order or of ApprovalRequest. It reads \<open>summary\<close>, which is a field of neither.
\<close>

theorem summary_not_in_data_model_counterexample:
  "\<not> (set handlePurchase_reads \<subseteq> set Order_fields \<union> set ApprovalRequest_fields)"
  by (simp add: handlePurchase_reads_def Order_fields_def ApprovalRequest_fields_def)

text \<open>
  C1, amended. On a confirmed purchase whose request succeeds, the order status becomes the
  \<open>summary\<close> field of the response (nothing is displayed when the field is absent or
  empty); the run depends on the response through that field alone; and \<open>summary\<close> is
  not among the fields of Order or ApprovalRequest.
\<close>

theorem handlePurchase_reads_summary:
  "fst (handlePurchase s True (Inr res)) = s\<lparr>loading := False, orderStatus := res ''summary''\<rparr> \<and>
   order_card (fst (handlePurchase s True (Inr res))) =
     (case res ''summary'' of None \<Rightarrow> None | Some t \<Rightarrow> if t = [] then None else Some t) \<and>
   ((\<forall>f \<in> set handlePurchase_reads. res f = res' f) \<longrightarrow>
      handlePurchase s ok (Inr res) = handlePurchase s ok (Inr res')) \<and>
   handlePurchase_reads = [''summary''] \<and>
   ''summary'' \<notin> set Order_fields \<union> set ApprovalRequest_fields"
  by (simp add: handlePurchase_def handlePurchase_call_def handlePurchase_settle_def order_card_def
      handlePurchase_reads_def Order_fields_def ApprovalRequest_fields_def)

theorem handlePurchase_reads_summary_witness:
  "[''summary'' \<mapsto> ''Order placed'', ''order_id'' \<mapsto> ''17''] ''summary'' =
     [''summary'' \<mapsto> ''Order placed''] ''summary'' \<and>
   handlePurchase Dashboard_init True
       (Inr [''summary'' \<mapsto> ''Order placed'', ''order_id'' \<mapsto> ''17'']) =
     handlePurchase Dashboard_init True (Inr [''summary'' \<mapsto> ''Order placed''])"
proof -
  have h: "\<forall>f \<in> set handlePurchase_reads.
      [''summary'' \<mapsto> ''Order placed'', ''order_id'' \<mapsto> ''17''] f =
      [''summary'' \<mapsto> ''Order placed''] f"
    by (simp add: handlePurchase_reads_def)
  have "handlePurchase Dashboard_init True
       (Inr [''summary'' \<mapsto> ''Order placed'', ''order_id'' \<mapsto> ''17'']) =
     handlePurchase Dashboard_init True (Inr [''summary'' \<mapsto> ''Order placed''])"
    using handlePurchase_reads_summary [of Dashboard_init
      "[''summary'' \<mapsto> ''Order placed'', ''order_id'' \<mapsto> ''17'']"
      "[''summary'' \<mapsto> ''Order placed'']" True] h
    by blast
  moreover have "[''summary'' \<mapsto> ''Order placed'', ''order_id'' \<mapsto> ''17''] ''summary'' =
     [''summary'' \<mapsto> ''Order placed''] ''summary''"
    by simp
  ultimately show ?thesis by blast
qed

text \<open>
  C7. Every scan response has one of the three levels LOW, MEDIUM, CRITICAL, with a summary
  and a timestamp, all three shown on the card. The badge is red exactly for CRITICAL, yellow
  exactly for MEDIUM, and the remaining (green) case is exactly LOW; the warning icon appears
  for CRITICAL only.
\<close>

theorem badge_cases:
  "risk_level r \<in> {LOW, MEDIUM, CRITICAL} \<and>
   (badge_class (risk_level r) = ''bg-red-950/50 border-red-500 text-red-400'') = (risk_level r = CRITICAL) \<and>
   (badge_class (risk_level r) = ''bg-yellow-950/50 border-yellow-500 text-yellow-400'') = (risk_level r = MEDIUM) \<and>
   (badge_class (risk_level r) = ''bg-green-950/50 border-green-500 text-green-400'') = (risk_level r = LOW) \<and>
   badge_icon (risk_level r) = (risk_level r = CRITICAL) \<and>
   scan_card (s\<lparr>scanResult := Some r\<rparr>) =
     Some \<lparr>card_class = badge_class (risk_level r), card_icon = badge_icon (risk_level r),
           card_label = RiskLevel_text (risk_level r) @ '' RISK DETECTED'', card_time = timestamp r,
           card_body = summary r\<rparr>"
  by (cases "risk_level r") (simp_all add: badge_class_def badge_icon_def badge_label_def scan_card_def)

section \<open>Properties of the backend as the spec describes it\<close>

subsection \<open>The merge of a scan\<close>

lemma foldl_max_level_mem: "foldl max_level a xs \<in> insert a (set xs)"
  by (induction xs arbitrary: a) (auto simp: max_level_def)

lemma foldl_max_level_start: "severity a \<le> severity (foldl max_level a xs)"
proof (induction xs arbitrary: a)
  case Nil
  show ?case by simp
next
  case (Cons x xs)
  have "severity a \<le> severity (max_level a x)" by (simp add: max_level_def)
  also have "\<dots> \<le> severity (foldl max_level (max_level a x) xs)" by (rule Cons.IH)
  finally show ?case by simp
qed

lemma foldl_max_level_upper:
  "x \<in> set xs \<Longrightarrow> severity x \<le> severity (foldl max_level a xs)"
proof (induction xs arbitrary: a)
  case Nil
  then show ?case by simp
next
  case (Cons y ys)
  show ?case
  proof (cases "x = y")
    case True
    have "severity y \<le> severity (max_level a y)" by (simp add: max_level_def)
    also have "\<dots> \<le> severity (foldl max_level (max_level a y) ys)"
      by (rule foldl_max_level_start)
    finally show ?thesis using True by simp
  next
    case False
    with Cons.prems have "x \<in> set ys" by simp
    then show ?thesis using Cons.IH by simp
  qed
qed

text \<open>
  C4. When at least one dimension's investigation completes, \<open>scan\<close> returns a report, and
  its risk_level is the level of a completed finding that no completed finding exceeds in
  severity: the maximum over the completed findings. Dimensions that timed out take no part
  in it.
\<close>

theorem scan_max_severity:
  assumes "completed os \<noteq> []"
  shows "\<exists>rep. scan rgn now parts os = Inr rep \<and>
           risk_level rep \<in> finding_level ` set (completed os) \<and>
           (\<forall>f \<in> set (completed os). severity (finding_level f) \<le> severity (risk_level rep)) \<and>
           severity (risk_level rep) = Max ((severity \<circ> finding_level) ` set (completed os))"
proof -
  from assms obtain f fs where c: "completed os = f # fs" by (cases "completed os") auto
  define m where "m = foldl max_level (finding_level f) (map finding_level fs)"
  have mem: "m \<in> finding_level ` set (f # fs)"
    using foldl_max_level_mem [of "finding_level f" "map finding_level fs"] by (auto simp: m_def)
  have up: "severity (finding_level g) \<le> severity m" if "g \<in> set (f # fs)" for g
  proof (cases "g = f")
    case True
    then show ?thesis by (simp add: m_def foldl_max_level_start)
  next
    case False
    with that have "finding_level g \<in> set (map finding_level fs)" by auto
    then show ?thesis unfolding m_def by (rule foldl_max_level_upper)
  qed
  have "Max ((severity \<circ> finding_level) ` set (f # fs)) = severity m"
  proof (rule Max_eqI)
    show "finite ((severity \<circ> finding_level) ` set (f # fs))" by simp
    show "y \<le> severity m" if "y \<in> (severity \<circ> finding_level) ` set (f # fs)" for y
      using that up by auto
    show "severity m \<in> (severity \<circ> finding_level) ` set (f # fs)"
      using mem by auto
  qed
  then show ?thesis using c mem up
    by (simp add: scan_def m_def)
qed

theorem scan_max_severity_witness:
  "completed outcomes0 \<noteq> [] \<and>
   (\<exists>rep. scan ''Taiwan'' 1700000000 [''Logic-Core-CPU''] outcomes0 = Inr rep \<and>
      risk_level rep = MEDIUM)"
  using scan_max_severity [of outcomes0 "''Taiwan''" 1700000000 "[''Logic-Core-CPU'']"]
  by (auto simp add: outcomes0_def)

subsection \<open>The approval gate\<close>

lemma workflow_run_Nil: "workflow_run cfg w [] = w"
  by (simp add: workflow_run_def)

lemma workflow_run_Cons:
  "workflow_run cfg w (e # es) = workflow_run cfg (snd (workflow_step cfg w e)) es"
  by (simp add: workflow_run_def)

lemma workflow_run_append:
  "workflow_run cfg w (es @ es') = workflow_run cfg (workflow_run cfg w es) es'"
  by (simp add: workflow_run_def)

lemmas workflow_defs = workflow_step_def evaluate_def resolve_def order_report_def fail_with_def

lemma gate_inv_init: "gate_inv Workflow_init"
  by (simp add: gate_inv_def Workflow_init_def is_pending_def)

lemma gate_inv_step: "gate_inv w \<Longrightarrow> gate_inv (snd (workflow_step cfg w e))"
  by (cases e; cases "wf_state w")
     (auto simp add: gate_inv_def is_pending_def workflow_defs
           split: option.splits QuoteResult.splits Decision.splits)

lemma gate_inv_run: "gate_inv w \<Longrightarrow> gate_inv (workflow_run cfg w es)"
  by (induction es arbitrary: w) (simp_all add: workflow_run_Nil workflow_run_Cons gate_inv_step)

lemma past_gate_step:
  "past_gate w \<Longrightarrow>
     past_gate (snd (workflow_step cfg w e)) \<and> approval (snd (workflow_step cfg w e)) = approval w"
  by (cases e; cases "wf_state w")
     (auto simp add: past_gate_def is_resolved_def workflow_defs
           split: option.splits QuoteResult.splits Decision.splits)

lemma past_gate_run:
  "past_gate w \<Longrightarrow>
     past_gate (workflow_run cfg w es) \<and> approval (workflow_run cfg w es) = approval w"
proof (induction es arbitrary: w)
  case Nil
  then show ?case by (simp add: workflow_run_Nil)
next
  case (Cons e es)
  from past_gate_step [OF Cons.prems, of cfg e] Cons.IH [of "snd (workflow_step cfg w e)"]
  show ?case by (simp add: workflow_run_Cons)
qed

lemma resolve_pending_past_gate: "is_pending w \<Longrightarrow> past_gate (snd (resolve d w))"
  by (auto simp: is_pending_def past_gate_def is_resolved_def resolve_def fail_with_def
      split: option.splits Decision.splits)

lemma resolve_resolved: "is_resolved w \<Longrightarrow> resolve d w = (Some ALREADY_RESOLVED, w)"
  by (auto simp: is_resolved_def resolve_def split: option.splits)

lemmas workflow_eval = workflow_run_Nil workflow_run_Cons workflow_defs Workflow_init_def
  config0_def quote0_def canonical_total_def is_pending_def is_confirmed_def

text \<open>
  C3. Take a workflow that has reached EVALUATE with a quote whose total cost in canonical
  currency is at or above the approval threshold. Its evaluation creates an ApprovalRequest
  with resolution PENDING and suspends the workflow in AWAIT_APPROVAL. Whatever happens next,
  as long as the request is pending no order of the workflow is CONFIRMED; resolving it
  REJECTED puts the workflow in FAILED with reason APPROVAL_DENIED, and resolving it APPROVED
  advances the workflow to PLACE_ORDER.
\<close>

theorem approval_gate:
  assumes "wf_state (workflow_run cfg Workflow_init es0) = EVALUATE"
    and "quote (workflow_run cfg Workflow_init es0) = Some q"
    and "approval_threshold cfg \<le> canonical_total cfg q"
  shows "let w1 = workflow_run cfg Workflow_init (es0 @ [Evaluate now]) in
           wf_state w1 = AWAIT_APPROVAL \<and>
           (\<exists>a. approval w1 = Some a \<and> resolution a = PENDING \<and>
                draft_total_cost (order_draft a) = canonical_total cfg q) \<and>
           (\<forall>es. let w2 = workflow_run cfg w1 es in
                is_pending w2 \<longrightarrow>
                  \<not> is_confirmed w2 \<and>
                  (let w3 = snd (workflow_step cfg w2 (Resolve Reject)) in
                     wf_state w3 = FAILED \<and> failure_reason w3 = Some APPROVAL_DENIED \<and>
                     \<not> is_pending w3 \<and> \<not> is_confirmed w3) \<and>
                  (let w3 = snd (workflow_step cfg w2 (Resolve Approve)) in
                     wf_state w3 = PLACE_ORDER \<and> \<not> is_pending w3 \<and> \<not> is_confirmed w3))"
proof -
  define w where "w = workflow_run cfg Workflow_init es0"
  define w1 where "w1 = workflow_run cfg Workflow_init (es0 @ [Evaluate now])"
  have w1: "w1 = snd (evaluate cfg now w)"
    by (simp add: w1_def w_def workflow_run_append workflow_run_Cons workflow_run_Nil
        workflow_step_def)
  have a: "wf_state w1 = AWAIT_APPROVAL"
    and b: "\<exists>a. approval w1 = Some a \<and> resolution a = PENDING \<and>
                draft_total_cost (order_draft a) = canonical_total cfg q"
    using assms unfolding w1 w_def [symmetric] by (simp_all add: evaluate_def)
  have inv1: "gate_inv w1"
    unfolding w1_def by (rule gate_inv_run [OF gate_inv_init])
  have c: "\<not> is_confirmed w2 \<and>
          (let w3 = snd (workflow_step cfg w2 (Resolve Reject)) in
             wf_state w3 = FAILED \<and> failure_reason w3 = Some APPROVAL_DENIED \<and>
             \<not> is_pending w3 \<and> \<not> is_confirmed w3) \<and>
          (let w3 = snd (workflow_step cfg w2 (Resolve Approve)) in
             wf_state w3 = PLACE_ORDER \<and> \<not> is_pending w3 \<and> \<not> is_confirmed w3)"
    if w2: "w2 = workflow_run cfg w1 es" and p: "is_pending w2" for w2 es
  proof -
    have "gate_inv w2" unfolding w2 by (rule gate_inv_run [OF inv1])
    with p have "order w2 = None"
      by (cases "wf_state w2") (simp_all add: gate_inv_def)
    with p show ?thesis
      by (auto simp: is_confirmed_def is_pending_def workflow_step_def resolve_def fail_with_def
          split: option.splits)
  qed
  show ?thesis
    unfolding w1_def [symmetric] Let_def using a b c by (simp add: Let_def)
qed

theorem approval_gate_witness:
  "wf_state (workflow_run config0 Workflow_init [MemoryRead [''S1''], QuoteReply (Quoted quote0)])
     = EVALUATE \<and>
   quote (workflow_run config0 Workflow_init [MemoryRead [''S1''], QuoteReply (Quoted quote0)])
     = Some quote0 \<and>
   approval_threshold config0 \<le> canonical_total config0 quote0 \<and>
   wf_state waiting0 = AWAIT_APPROVAL \<and>
   is_pending (workflow_run config0 waiting0 [OrderReport 1 CONFIRMED]) \<and>
   \<not> is_confirmed (workflow_run config0 waiting0 [OrderReport 1 CONFIRMED]) \<and>
   wf_state (snd (workflow_step config0
      (workflow_run config0 waiting0 [OrderReport 1 CONFIRMED]) (Resolve Reject))) = FAILED \<and>
   wf_state (snd (workflow_step config0
      (workflow_run config0 waiting0 [OrderReport 1 CONFIRMED]) (Resolve Approve))) = PLACE_ORDER"
proof -
  let ?es0 = "[MemoryRead [''S1''], QuoteReply (Quoted quote0)]"
  have h1: "wf_state (workflow_run config0 Workflow_init ?es0) = EVALUATE"
    by (simp add: workflow_eval)
  have h2: "quote (workflow_run config0 Workflow_init ?es0) = Some quote0"
    by (simp add: workflow_eval)
  have h3: "approval_threshold config0 \<le> canonical_total config0 quote0"
    by (simp add: config0_def quote0_def canonical_total_def)
  have p: "is_pending (workflow_run config0 waiting0 [OrderReport 1 CONFIRMED])"
    by (simp add: waiting0_def workflow_eval)
  from approval_gate [OF h1 h2 h3, of 1700000000] p
  have "wf_state waiting0 = AWAIT_APPROVAL \<and>
   \<not> is_confirmed (workflow_run config0 waiting0 [OrderReport 1 CONFIRMED]) \<and>
   wf_state (snd (workflow_step config0
      (workflow_run config0 waiting0 [OrderReport 1 CONFIRMED]) (Resolve Reject))) = FAILED \<and>
   wf_state (snd (workflow_step config0
      (workflow_run config0 waiting0 [OrderReport 1 CONFIRMED]) (Resolve Approve))) = PLACE_ORDER"
    unfolding waiting0_def [symmetric] Let_def by blast
  with h1 h2 h3 p show ?thesis by blast
qed

text \<open>
  C5. The first resolve call on a pending ApprovalRequest sets its resolution to APPROVED or
  REJECTED, as decided. After it, however the workflow goes on, every resolve call fails with
  ALREADY_RESOLVED and returns the workflow as it was, and the approval request stays as the
  first call left it.
\<close>

theorem resolve_once:
  assumes "is_pending w"
  shows "let (r1, w1) = resolve d w in
           (\<exists>a. approval w1 = Some a \<and>
                resolution a = (case d of Approve \<Rightarrow> APPROVED | Reject \<Rightarrow> REJECTED)) \<and>
           (\<forall>es d'. let w2 = workflow_run cfg w1 es in
                resolve d' w2 = (Some ALREADY_RESOLVED, w2) \<and> approval w2 = approval w1)"
proof -
  obtain r1 w1 where r: "resolve d w = (r1, w1)" by (cases "resolve d w")
  have first: "\<exists>a. approval w1 = Some a \<and>
      resolution a = (case d of Approve \<Rightarrow> APPROVED | Reject \<Rightarrow> REJECTED)"
    using assms r
    by (auto simp: is_pending_def resolve_def fail_with_def split: option.splits Decision.splits)
  have pg: "past_gate w1" using resolve_pending_past_gate [OF assms, of d] r by simp
  have later: "resolve d' (workflow_run cfg w1 es) = (Some ALREADY_RESOLVED, workflow_run cfg w1 es)"
    and keep: "approval (workflow_run cfg w1 es) = approval w1" for es d'
    using past_gate_run [OF pg, of cfg es] by (simp_all add: past_gate_def resolve_resolved)
  show ?thesis using first later keep by (simp add: r Let_def)
qed

theorem resolve_once_witness:
  "is_pending waiting0 \<and>
   fst (resolve Approve waiting0) = None \<and>
   \<not> is_pending (snd (resolve Approve waiting0)) \<and>
   resolve Reject (workflow_run config0 (snd (resolve Approve waiting0)) [OrderReport 1 CONFIRMED]) =
     (Some ALREADY_RESOLVED,
      workflow_run config0 (snd (resolve Approve waiting0)) [OrderReport 1 CONFIRMED]) \<and>
   is_confirmed (workflow_run config0 (snd (resolve Approve waiting0)) [OrderReport 1 CONFIRMED])"
proof -
  have p: "is_pending waiting0"
    by (simp add: waiting0_def workflow_eval)
  have a: "fst (resolve Approve waiting0) = None"
    and b: "\<not> is_pending (snd (resolve Approve waiting0))"
    and c: "is_confirmed (workflow_run config0 (snd (resolve Approve waiting0)) [OrderReport 1 CONFIRMED])"
    by (simp_all add: waiting0_def workflow_eval)
  from resolve_once [OF p, of Approve config0]
  have "resolve Reject (workflow_run config0 (snd (resolve Approve waiting0)) [OrderReport 1 CONFIRMED]) =
     (Some ALREADY_RESOLVED,
      workflow_run config0 (snd (resolve Approve waiting0)) [OrderReport 1 CONFIRMED])"
    by (simp add: Let_def split: prod.splits)
  with p a b c show ?thesis by blast
qed

end
